theory Spec2Isabelle
  imports Complex_Main "HOL-Library.Word"
begin

section \<open>Basic types\<close>

text \<open>
  A \<^verbatim>\<open>uuid.UUID\<close> is sixteen bytes; only equality and the primary-key order of the
  database are ever used on it.  A \<^verbatim>\<open>time.Time\<close> is an instant, taken as a number of
  nanoseconds.  A \<^verbatim>\<open>float64\<close> is modelled by the real number it denotes: the
  comparisons of the source against the constants 0, 90, 180 and 360 are exact on every
  finite value, the rounding of the individual arithmetic operations is outside the model,
  and NaN has no counterpart.  \<^verbatim>\<open>time.Now()\<close> and \<^verbatim>\<open>uuid.New()\<close> read the environment;
  the functions below take their results as arguments.
\<close>

type_synonym uuid = "128 word"
type_synonym timestamp = int
type_synonym float64 = real

section \<open>Package tracking: waypoints and the trip track aggregate\<close>

text \<open>\<^verbatim>\<open>type TrackingStatus string\<close> is an open string type with three named constants.\<close>

type_synonym TrackingStatus = string

definition TrackingActive :: TrackingStatus where
  "TrackingActive = ''active''"

definition TrackingCompleted :: TrackingStatus where
  "TrackingCompleted = ''completed''"

definition TrackingCancelled :: TrackingStatus where
  "TrackingCancelled = ''cancelled''"

text \<open>
  Errors are values.  \<open>InvalidStateError from to\<close> is \<^verbatim>\<open>domain.NewInvalidStateError\<close>,
  \<open>Wrapped msg e\<close> is \<^verbatim>\<open>fmt.Errorf(msg + ": %w", e)\<close>, \<open>ValidationError\<close> is the plain
  \<^verbatim>\<open>fmt.Errorf\<close> of the waypoint constructor, \<open>DbError\<close> is an error reported by the
  database driver, and \<open>Panic\<close> is a run-time panic.
\<close>

datatype error =
    ErrNotFound
  | ErrOptimisticLock
  | InvalidStateError string string
  | ValidationError string
  | DbError string
  | Panic string
  | Wrapped string error

record Waypoint =
  ID :: uuid
  Latitude :: float64
  Longitude :: float64
  Speed :: float64
  Heading :: float64
  RecordedAt :: timestamp

definition NewWaypoint ::
  "uuid \<Rightarrow> float64 \<Rightarrow> float64 \<Rightarrow> float64 \<Rightarrow> float64 \<Rightarrow> timestamp \<Rightarrow> error + Waypoint" where
  "NewWaypoint newId lat lng speed heading recordedAt =
     (if lat < - 90 \<or> lat > 90 then Inl (ValidationError ''latitude must be between -90 and 90'')
      else if lng < - 180 \<or> lng > 180 then Inl (ValidationError ''longitude must be between -180 and 180'')
      else
        let speed1 = (if speed < 0 then 0 else speed);
            heading1 = (if heading < 0 \<or> heading > 360 then 0 else heading)
        in Inr \<lparr>ID = newId, Latitude = lat, Longitude = lng, Speed = speed1,
                 Heading = heading1, RecordedAt = recordedAt\<rparr>)"

text \<open>
  The aggregate.  The field \<^verbatim>\<open>id\<close> of the source is called \<open>trackId\<close> here, since \<open>id\<close>
  is the identity function of HOL; the getters of the source are the field selectors.
  \<^verbatim>\<open>version\<close> is an \<^verbatim>\<open>int64\<close>.
\<close>

record TripTrack =
  trackId :: uuid
  bookingID :: uuid
  runnerID :: uuid
  status :: TrackingStatus
  totalDistanceKm :: float64
  startedAt :: timestamp
  completedAt :: "timestamp option"
  version :: "64 word"
  createdAt :: timestamp
  updatedAt :: timestamp

definition NewTripTrack :: "timestamp \<Rightarrow> uuid \<Rightarrow> uuid \<Rightarrow> uuid \<Rightarrow> TripTrack" where
  "NewTripTrack now newId bookingId runnerId =
     \<lparr>trackId = newId, bookingID = bookingId, runnerID = runnerId, status = TrackingActive,
      totalDistanceKm = 0, startedAt = now, completedAt = None, version = 1,
      createdAt = now, updatedAt = now\<rparr>"

text \<open>
  \<^verbatim>\<open>Complete\<close> and \<^verbatim>\<open>Cancel\<close> mutate the receiver and return an error or nil: here they
  return the error (if any) and the track after the call.
\<close>

definition Complete :: "timestamp \<Rightarrow> float64 \<Rightarrow> TripTrack \<Rightarrow> error option \<times> TripTrack" where
  "Complete now km t =
     (if status t \<noteq> TrackingActive
      then (Some (InvalidStateError (status t) TrackingCompleted), t)
      else (None, t\<lparr>status := TrackingCompleted, totalDistanceKm := km,
                      completedAt := Some now, updatedAt := now\<rparr>))"

definition Cancel :: "timestamp \<Rightarrow> TripTrack \<Rightarrow> error option \<times> TripTrack" where
  "Cancel now t =
     (if status t \<noteq> TrackingActive
      then (Some (InvalidStateError (status t) TrackingCancelled), t)
      else (None, t\<lparr>status := TrackingCancelled, updatedAt := now\<rparr>))"

definition IncrementVersion :: "timestamp \<Rightarrow> TripTrack \<Rightarrow> TripTrack" where
  "IncrementVersion now t = t\<lparr>version := version t + 1, updatedAt := now\<rparr>"

definition IsActive :: "TripTrack \<Rightarrow> bool" where
  "IsActive t \<longleftrightarrow> status t = TrackingActive"

definition Reconstruct ::
  "uuid \<Rightarrow> uuid \<Rightarrow> uuid \<Rightarrow> TrackingStatus \<Rightarrow> float64 \<Rightarrow> timestamp \<Rightarrow> timestamp option \<Rightarrow>
   64 word \<Rightarrow> timestamp \<Rightarrow> timestamp \<Rightarrow> TripTrack" where
  "Reconstruct i b r st km started completed ver created updated =
     \<lparr>trackId = i, bookingID = b, runnerID = r, status = st, totalDistanceKm = km,
      startedAt = started, completedAt = completed, version = ver,
      createdAt = created, updatedAt = updated\<rparr>"

section \<open>Package repository: persistence models\<close>

text \<open>
  The fields of \<^verbatim>\<open>TripTrackModel\<close> and \<^verbatim>\<open>WaypointModel\<close> carry the prefixes \<open>m\<close> and
  \<open>wm\<close>, since the source reuses the names \<^verbatim>\<open>ID\<close>, \<^verbatim>\<open>Latitude\<close>, ... across its structs.
\<close>

record TripTrackModel =
  mID :: uuid
  mBookingID :: uuid
  mRunnerID :: uuid
  mStatus :: string
  mTotalDistanceKm :: float64
  mStartedAt :: timestamp
  mCompletedAt :: "timestamp option"
  mVersion :: "64 word"
  mCreatedAt :: timestamp
  mUpdatedAt :: timestamp

record WaypointModel =
  wmID :: uuid
  wmTripTrackID :: uuid
  wmLatitude :: float64
  wmLongitude :: float64
  wmSpeed :: float64
  wmHeading :: float64
  wmRecordedAt :: timestamp
  wmCreatedAt :: timestamp

definition toDomain :: "TripTrackModel \<Rightarrow> TripTrack" where
  "toDomain model =
     Reconstruct (mID model) (mBookingID model) (mRunnerID model) (mStatus model)
       (mTotalDistanceKm model) (mStartedAt model) (mCompletedAt model) (mVersion model)
       (mCreatedAt model) (mUpdatedAt model)"

definition toModel :: "TripTrack \<Rightarrow> TripTrackModel" where
  "toModel track =
     \<lparr>mID = trackId track, mBookingID = bookingID track, mRunnerID = runnerID track,
      mStatus = status track, mTotalDistanceKm = totalDistanceKm track,
      mStartedAt = startedAt track, mCompletedAt = completedAt track,
      mVersion = version track, mCreatedAt = createdAt track, mUpdatedAt = updatedAt track\<rparr>"

section \<open>Package repository: the store\<close>

text \<open>
  The database is the two tables of the migration.  \<^verbatim>\<open>trip_tracks\<close> has the primary key
  \<^verbatim>\<open>id\<close> and a unique index on \<^verbatim>\<open>booking_id\<close>.  \<^verbatim>\<open>waypoints\<close>, the field
  \<open>waypoints_tbl\<close> of the record, has the primary key \<^verbatim>\<open>id\<close> and a foreign key
  \<^verbatim>\<open>trip_track_id\<close> into \<^verbatim>\<open>trip_tracks\<close>.  A statement that would break one of them fails
  with a driver error.  Failures of the connection itself are not part of the model.
\<close>

record Store =
  trip_tracks :: "TripTrackModel list"
  waypoints_tbl :: "WaypointModel list"

text \<open>
  \<^verbatim>\<open>Where(cond).First(&model)\<close>: the first row satisfying the condition, in primary key
  order; no such row is \<^verbatim>\<open>gorm.ErrRecordNotFound\<close>, here \<open>None\<close>.
\<close>

definition First :: "(TripTrackModel \<Rightarrow> bool) \<Rightarrow> Store \<Rightarrow> TripTrackModel option" where
  "First cond store = find cond (sort_key mID (trip_tracks store))"

definition FindByID :: "Store \<Rightarrow> uuid \<Rightarrow> error + TripTrack" where
  "FindByID store i =
     (case First (\<lambda>m. mID m = i) store of
        None \<Rightarrow> Inl ErrNotFound
      | Some model \<Rightarrow> Inr (toDomain model))"

definition FindByBookingID :: "Store \<Rightarrow> uuid \<Rightarrow> error + TripTrack" where
  "FindByBookingID store bookingId =
     (case First (\<lambda>m. mBookingID m = bookingId) store of
        None \<Rightarrow> Inl ErrNotFound
      | Some model \<Rightarrow> Inr (toDomain model))"

definition FindActiveByRunnerID :: "Store \<Rightarrow> uuid \<Rightarrow> error + TripTrack" where
  "FindActiveByRunnerID store runnerId =
     (case First (\<lambda>m. mRunnerID m = runnerId \<and> mStatus m = TrackingActive) store of
        None \<Rightarrow> Inl ErrNotFound
      | Some model \<Rightarrow> Inr (toDomain model))"

text \<open>\<^verbatim>\<open>Save\<close>: an \<^verbatim>\<open>INSERT\<close> of the row.\<close>

definition Save :: "Store \<Rightarrow> TripTrack \<Rightarrow> error + Store" where
  "Save store track =
     (let model = toModel track in
      if \<exists>r \<in> set (trip_tracks store). mID r = mID model \<or> mBookingID r = mBookingID model
      then Inl (Wrapped ''failed to save trip track'' (DbError ''duplicate key''))
      else Inr (store\<lparr>trip_tracks := trip_tracks store @ [model]\<rparr>))"

text \<open>
  \<^verbatim>\<open>Update\<close>: \<^verbatim>\<open>Where("id = ? AND version = ?", model.ID, model.Version-1).Save(model)\<close>.
  The rows it writes are those whose id is the model's and whose stored version is the
  model's version minus one (on \<^verbatim>\<open>int64\<close>); each of them gets all columns of the model.
  \<^verbatim>\<open>RowsAffected\<close> is their number, and 0 is \<^verbatim>\<open>domain.ErrOptimisticLock\<close>.  The
  statement is taken as the source writes it; what the library may do beyond it when no
  row matches is not part of the model.
\<close>

definition Update :: "Store \<Rightarrow> TripTrack \<Rightarrow> error + Store" where
  "Update store track =
     (let model = toModel track;
          hit = (\<lambda>r. mID r = mID model \<and> mVersion r = mVersion model - 1);
          rowsAffected = length (filter hit (trip_tracks store))
      in
      if rowsAffected \<noteq> 0 \<and>
         (\<exists>r \<in> set (trip_tracks store). \<not> hit r \<and> mBookingID r = mBookingID model)
      then Inl (Wrapped ''failed to update trip track'' (DbError ''duplicate key''))
      else if rowsAffected = 0 then Inl ErrOptimisticLock
      else Inr (store\<lparr>trip_tracks := map (\<lambda>r. if hit r then model else r) (trip_tracks store)\<rparr>))"

definition AddWaypoint :: "timestamp \<Rightarrow> Store \<Rightarrow> uuid \<Rightarrow> Waypoint \<Rightarrow> error + Store" where
  "AddWaypoint now store trackID waypoint =
     (let model = \<lparr>wmID = ID waypoint, wmTripTrackID = trackID, wmLatitude = Latitude waypoint,
                    wmLongitude = Longitude waypoint, wmSpeed = Speed waypoint,
                    wmHeading = Heading waypoint, wmRecordedAt = RecordedAt waypoint,
                    wmCreatedAt = now\<rparr>
      in
      if (\<exists>r \<in> set (waypoints_tbl store). wmID r = wmID model) \<or>
         \<not> (\<exists>t \<in> set (trip_tracks store). mID t = trackID)
      then Inl (Wrapped ''failed to add waypoint'' (DbError ''constraint violation''))
      else Inr (store\<lparr>waypoints_tbl := waypoints_tbl store @ [model]\<rparr>))"

text \<open>
  \<^verbatim>\<open>GetWaypoints\<close>: the rows of the track, \<^verbatim>\<open>ORDER BY recorded_at ASC\<close>, copied one by one
  into domain waypoints.
\<close>

definition GetWaypoints :: "Store \<Rightarrow> uuid \<Rightarrow> Waypoint list" where
  "GetWaypoints store trackID =
     map (\<lambda>m. \<lparr>ID = wmID m, Latitude = wmLatitude m, Longitude = wmLongitude m,
                Speed = wmSpeed m, Heading = wmHeading m, RecordedAt = wmRecordedAt m\<rparr>)
       (sort_key wmRecordedAt (filter (\<lambda>m. wmTripTrackID m = trackID) (waypoints_tbl store)))"

section \<open>Package application: distance\<close>

text \<open>
  \<^verbatim>\<open>math.Atan2(y, x)\<close> is the angle of the point \<open>(x, y)\<close>, and \<^verbatim>\<open>math.Round\<close> rounds to
  the nearest integer, halves away from zero.
\<close>

definition Atan2 :: "real \<Rightarrow> real \<Rightarrow> real" where
  "Atan2 y x =
     (if x = 0 then (if y = 0 then 0 else if 0 < y then pi / 2 else - (pi / 2))
      else let q = arctan (y / x) in
        if x < 0 then (if q \<le> 0 then q + pi else q - pi) else q)"

definition Round :: "real \<Rightarrow> real" where
  "Round x = (if x < 0 then - of_int \<lfloor>- x + 1 / 2\<rfloor> else of_int \<lfloor>x + 1 / 2\<rfloor>)"

definition earthRadiusKm :: real where
  "earthRadiusKm = 6371"

definition haversineKm :: "float64 \<Rightarrow> float64 \<Rightarrow> float64 \<Rightarrow> float64 \<Rightarrow> float64" where
  "haversineKm lat1 lon1 lat2 lon2 =
     (let dLat = (lat2 - lat1) * pi / 180;
          dLon = (lon2 - lon1) * pi / 180;
          lat1Rad = lat1 * pi / 180;
          lat2Rad = lat2 * pi / 180;
          a = sin (dLat / 2) * sin (dLat / 2) +
              cos lat1Rad * cos lat2Rad * sin (dLon / 2) * sin (dLon / 2);
          c = 2 * Atan2 (sqrt a) (sqrt (1 - a))
      in earthRadiusKm * c)"

text \<open>The loop of \<^verbatim>\<open>calculateTotalDistance\<close>: \<open>i\<close> runs from 1 while \<open>i < len(waypoints)\<close>.\<close>

function totalKmLoop :: "Waypoint list \<Rightarrow> nat \<Rightarrow> float64 \<Rightarrow> float64" where
  "totalKmLoop waypoints i totalKm =
     (if i < length waypoints
      then totalKmLoop waypoints (i + 1)
             (totalKm + haversineKm (Latitude (waypoints ! (i - 1))) (Longitude (waypoints ! (i - 1)))
                                    (Latitude (waypoints ! i)) (Longitude (waypoints ! i)))
      else totalKm)"
  by pat_completeness auto
termination
  by (relation "measure (\<lambda>(waypoints, i, totalKm). length waypoints - i)") auto

declare totalKmLoop.simps [simp del]

definition calculateTotalDistance :: "Waypoint list \<Rightarrow> float64" where
  "calculateTotalDistance waypoints =
     (if length waypoints < 2 then 0
      else Round (totalKmLoop waypoints 1 0 * 1000) / 1000)"



section \<open>Package application: the event handlers\<close>

text \<open>
  The events of \<^verbatim>\<open>lib-proto\<close>, with the fields the handlers read and write.  The
  outbound events are what the handlers hand to \<^verbatim>\<open>producer.PublishEvent\<close>; a failure of
  the producer is logged by the handlers and changes nothing else, so the model records the
  events handed over.  \<^verbatim>\<open>hub.Broadcast\<close> puts the update on the hub's broadcast channel.
\<close>

record BookingAcceptedEvent =
  baBookingID :: uuid
  baRunnerID :: uuid

record RunnerLocationUpdateEvent =
  luRunnerID :: uuid
  luLatitude :: float64
  luLongitude :: float64
  luSpeed :: float64
  luHeading :: float64
  luTimestamp :: timestamp

record DeliveryConfirmedEvent =
  dcBookingID :: uuid

record TrackingUpdate =
  uBookingID :: uuid
  uRunnerID :: uuid
  uLatitude :: float64
  uLongitude :: float64
  uSpeed :: float64
  uHeading :: float64
  uTimestamp :: timestamp

datatype OutEvent =
    TrackingStartedEvent uuid uuid uuid timestamp timestamp
  | TrackingUpdatedEvent uuid uuid uuid float64 float64 float64 timestamp
  | TrackingCompletedEvent uuid uuid uuid float64 timestamp timestamp

record World =
  repo :: Store
  hubBroadcast :: "TrackingUpdate list"
  published :: "OutEvent list"

text \<open>
  Each handler takes the world before the call and the values the call reads from the
  environment (\<open>now\<close> for the clock of the aggregate, \<open>occurredAt\<close> for the clock of the
  event, \<open>newId\<close> for the generated identifier), and returns the error (or nil) with the
  world after the call.
\<close>

definition HandleBookingAccepted ::
  "timestamp \<Rightarrow> timestamp \<Rightarrow> uuid \<Rightarrow> World \<Rightarrow> BookingAcceptedEvent \<Rightarrow> error option \<times> World" where
  "HandleBookingAccepted now occurredAt newId w event =
     (case FindByBookingID (repo w) (baBookingID event) of
        Inr existing \<Rightarrow> (None, w)
      | Inl _ \<Rightarrow>
          let track = NewTripTrack now newId (baBookingID event) (baRunnerID event) in
          (case Save (repo w) track of
             Inl err \<Rightarrow> (Some (Wrapped ''failed to save trip track'' err), w)
           | Inr store1 \<Rightarrow>
               (None, w\<lparr>repo := store1,
                         published := published w @
                           [TrackingStartedEvent (trackId track) (bookingID track) (runnerID track)
                              (startedAt track) occurredAt]\<rparr>)))"

definition HandleRunnerLocationUpdate ::
  "timestamp \<Rightarrow> timestamp \<Rightarrow> uuid \<Rightarrow> World \<Rightarrow> RunnerLocationUpdateEvent \<Rightarrow> error option \<times> World" where
  "HandleRunnerLocationUpdate now occurredAt newId w event =
     (case FindActiveByRunnerID (repo w) (luRunnerID event) of
        Inl _ \<Rightarrow> (None, w)
      | Inr track \<Rightarrow>
          (case NewWaypoint newId (luLatitude event) (luLongitude event) (luSpeed event)
                  (luHeading event) (luTimestamp event) of
             Inl _ \<Rightarrow> (None, w)
           | Inr waypoint \<Rightarrow>
               (case AddWaypoint now (repo w) (trackId track) waypoint of
                  Inl err \<Rightarrow> (Some (Wrapped ''failed to add waypoint'' err), w)
                | Inr store1 \<Rightarrow>
                    (None, w\<lparr>repo := store1,
                              hubBroadcast := hubBroadcast w @
                                [\<lparr>uBookingID = bookingID track, uRunnerID = runnerID track,
                                  uLatitude = luLatitude event, uLongitude = luLongitude event,
                                  uSpeed = luSpeed event, uHeading = luHeading event,
                                  uTimestamp = luTimestamp event\<rparr>],
                              published := published w @
                                [TrackingUpdatedEvent (trackId track) (bookingID track)
                                   (runnerID track) (luLatitude event) (luLongitude event)
                                   (luSpeed event) occurredAt]\<rparr>))))"

definition HandleDeliveryConfirmed ::
  "timestamp \<Rightarrow> timestamp \<Rightarrow> World \<Rightarrow> DeliveryConfirmedEvent \<Rightarrow> error option \<times> World" where
  "HandleDeliveryConfirmed now occurredAt w event =
     (case FindByBookingID (repo w) (dcBookingID event) of
        Inl err \<Rightarrow> (Some (Wrapped ''tracking not found for booking'' err), w)
      | Inr track \<Rightarrow>
          if \<not> IsActive track then (None, w)
          else
            let waypoints = GetWaypoints (repo w) (trackId track);
                totalDistance = calculateTotalDistance waypoints
            in
            (case Complete now totalDistance track of
               (Some err, _) \<Rightarrow> (Some (Wrapped ''failed to complete tracking'' err), w)
             | (None, track1) \<Rightarrow>
                 (case Update (repo w) track1 of
                    Inl err \<Rightarrow> (Some (Wrapped ''failed to update tracking'' err), w)
                  | Inr store1 \<Rightarrow>
                      (case completedAt track1 of
                         None \<Rightarrow> (Some (Panic ''nil pointer dereference''), w\<lparr>repo := store1\<rparr>)
                       | Some completed \<Rightarrow>
                           (None, w\<lparr>repo := store1,
                                     published := published w @
                                       [TrackingCompletedEvent (trackId track1) (bookingID track1)
                                          (runnerID track1) totalDistance completed
                                          occurredAt]\<rparr>)))))"

section \<open>Package repository: route export\<close>






section \<open>Package ws: the hub\<close>

text \<open>
  A \<^verbatim>\<open>*Client\<close> is an address.  Its \<^verbatim>\<open>Send\<close> channel is a buffered channel: the queued
  messages, the capacity, and whether it has been closed; every client has a channel of
  its own, as the one constructor in the handler makes them.  A room is the set of keys
  of the inner map, listed in the order in which a \<^verbatim>\<open>range\<close> over it visits them (any
  order of distinct clients).
\<close>

type_synonym client = nat

record Chan =
  chQueue :: "string list"
  chCap :: nat
  chClosed :: bool

record Hub =
  rooms :: "uuid \<Rightarrow> client list option"
  Send :: "client \<Rightarrow> Chan"

text \<open>
  The loop of \<^verbatim>\<open>broadcastToRoom\<close>.  \<open>todo\<close> are the clients still to visit and
  \<open>clients\<close> is the inner map, which the loop shrinks; the room of the hub is that same
  map until the room is deleted.  \<^verbatim>\<open>select\<close> with a send and a \<^verbatim>\<open>default\<close>: a send on a
  closed channel panics, a send on a channel with room in its buffer goes through, and
  otherwise the \<^verbatim>\<open>default\<close> branch runs.
\<close>

fun broadcastLoop :: "uuid \<Rightarrow> string \<Rightarrow> client list \<Rightarrow> client list \<Rightarrow> Hub \<Rightarrow> error + Hub" where
  "broadcastLoop bookingId data [] clients h = Inr h"
| "broadcastLoop bookingId data (client # todo) clients h =
     (let ch = Send h client in
      if chClosed ch then Inl (Panic ''send on closed channel'')
      else if length (chQueue ch) < chCap ch
      then broadcastLoop bookingId data todo clients
             (h\<lparr>Send := (Send h)(client := ch\<lparr>chQueue := chQueue ch @ [data]\<rparr>)\<rparr>)
      else
        let clients1 = removeAll client clients;
            h1 = h\<lparr>Send := (Send h)(client := ch\<lparr>chClosed := True\<rparr>)\<rparr>;
            h2 = (if length clients1 = 0
                  then h1\<lparr>rooms := (rooms h1)(bookingId := None)\<rparr>
                  else h1\<lparr>rooms := (rooms h1)(bookingId := Some clients1)\<rparr>)
        in broadcastLoop bookingId data todo clients1 h2)"

definition broadcastToRoom :: "Hub \<Rightarrow> uuid \<Rightarrow> string \<Rightarrow> error + Hub" where
  "broadcastToRoom h bookingId data =
     (case rooms h bookingId of
        None \<Rightarrow> Inr h
      | Some clients \<Rightarrow> broadcastLoop bookingId data clients clients h)"

text \<open>What the loop does to one channel, and which channels count as full.\<close>

definition isFull :: "Chan \<Rightarrow> bool" where
  "isFull ch \<longleftrightarrow> chCap ch \<le> length (chQueue ch)"

definition members :: "Hub \<Rightarrow> uuid \<Rightarrow> client set" where
  "members h bookingId = (case rooms h bookingId of None \<Rightarrow> {} | Some clients \<Rightarrow> set clients)"

definition deliverTo :: "string \<Rightarrow> Chan \<Rightarrow> Chan" where
  "deliverTo data ch =
     (if isFull ch then ch\<lparr>chClosed := True\<rparr> else ch\<lparr>chQueue := chQueue ch @ [data]\<rparr>)"

definition roomOf :: "client list \<Rightarrow> client list option" where
  "roomOf cs = (if cs = [] then None else Some cs)"

text \<open>
  The other cases of the loop of \<^verbatim>\<open>Run\<close>, which are the only other code that changes
  the rooms.  \<open>BookingID\<close> gives the room key of a client, fixed when the client is made.
  \<^verbatim>\<open>NewHub\<close> has no rooms; the channels are whatever the clients registered later bring.
\<close>

definition NewHub :: "(client \<Rightarrow> Chan) \<Rightarrow> Hub" where
  "NewHub channels = \<lparr>rooms = (\<lambda>_. None), Send = channels\<rparr>"

definition hubRegister :: "(client \<Rightarrow> uuid) \<Rightarrow> Hub \<Rightarrow> client \<Rightarrow> Hub" where
  "hubRegister BookingID h client =
     (let clients = (case rooms h (BookingID client) of None \<Rightarrow> [] | Some cs \<Rightarrow> cs)
      in h\<lparr>rooms := (rooms h)(BookingID client :=
              Some (if client \<in> set clients then clients else clients @ [client]))\<rparr>)"

definition hubUnregister :: "(client \<Rightarrow> uuid) \<Rightarrow> Hub \<Rightarrow> client \<Rightarrow> error + Hub" where
  "hubUnregister BookingID h client =
     (case rooms h (BookingID client) of
        None \<Rightarrow> Inr h
      | Some clients \<Rightarrow>
          if client \<in> set clients then
            if chClosed (Send h client) then Inl (Panic ''close of closed channel'')
            else
              let clients1 = removeAll client clients;
                  h1 = h\<lparr>Send := (Send h)(client := (Send h client)\<lparr>chClosed := True\<rparr>)\<rparr>
              in Inr (if length clients1 = 0
                      then h1\<lparr>rooms := (rooms h1)(BookingID client := None)\<rparr>
                      else h1\<lparr>rooms := (rooms h1)(BookingID client := Some clients1)\<rparr>)
          else Inr h)"

text \<open>
  The state the loop of \<^verbatim>\<open>Run\<close> keeps: a room is never empty, lists each member once,
  holds only clients with its own key, and every member's channel is open.
\<close>

definition hub_inv :: "(client \<Rightarrow> uuid) \<Rightarrow> Hub \<Rightarrow> bool" where
  "hub_inv BookingID h \<longleftrightarrow>
     (\<forall>b clients. rooms h b = Some clients \<longrightarrow>
        clients \<noteq> [] \<and> distinct clients \<and>
        (\<forall>c \<in> set clients. BookingID c = b \<and> \<not> chClosed (Send h c)))"

section \<open>Sample data\<close>

text \<open>
  A world whose store holds one track, created at time 10 with id 1 for booking 2 and
  runner 3, and nothing else; a waypoint at latitude 0, longitude 0; a hub with one room
  of two clients, the first with a full queue; and a store with two waypoints of track 1,
  stored in the reverse order of their recorded times, with a number format for their
  coordinates.
\<close>

definition sampleWorld :: World where
  "sampleWorld =
     \<lparr>repo = \<lparr>trip_tracks = [toModel (NewTripTrack 10 1 2 3)], waypoints_tbl = []\<rparr>,
      hubBroadcast = [], published = []\<rparr>"


definition sampleHub :: Hub where
  "sampleHub =
     \<lparr>rooms = (\<lambda>_. None)(9 := Some [1, 2]),
      Send = (\<lambda>_. \<lparr>chQueue = [], chCap = 2, chClosed = False\<rparr>)
               (1 := \<lparr>chQueue = [''old''], chCap = 1, chClosed = False\<rparr>)\<rparr>"



section \<open>Waypoint validation\<close>

text \<open>
  Claim C3, as the code has it.  Coordinates outside \<open>[-90, 90]\<close> and \<open>[-180, 180]\<close> are
  rejected; inside, construction succeeds, a negative speed becomes 0, and a heading becomes
  0 exactly when it is below 0 or above 360.  The guard of the source is \<open>heading > 360\<close>,
  so a heading of exactly 360 is kept.
\<close>

theorem NewWaypoint_validates:
  "(lat < - 90 \<or> 90 < lat \<or> lng < - 180 \<or> 180 < lng
      \<longrightarrow> isl (NewWaypoint i lat lng speed heading t)) \<and>
   (- 90 \<le> lat \<and> lat \<le> 90 \<and> - 180 \<le> lng \<and> lng \<le> 180
      \<longrightarrow> NewWaypoint i lat lng speed heading t =
            Inr \<lparr>ID = i, Latitude = lat, Longitude = lng,
                 Speed = (if speed < 0 then 0 else speed),
                 Heading = (if 0 \<le> heading \<and> heading \<le> 360 then heading else 0),
                 RecordedAt = t\<rparr>)"
  by (auto simp add: NewWaypoint_def Let_def)

theorem NewWaypoint_validates_witness:
  "isl (NewWaypoint 7 91 0 0 0 5) \<and>
   NewWaypoint 7 10 20 (- 3) 400 5 =
     Inr \<lparr>ID = 7, Latitude = 10, Longitude = 20, Speed = 0, Heading = 0, RecordedAt = 5\<rparr>"
  using NewWaypoint_validates [of 91 0 7 0 0 5]
        NewWaypoint_validates [of 10 20 7 "- 3" 400 5]
  by simp

text \<open>
  The claim as the specification words it asks for 0 on every heading outside \<open>[0, 360)\<close>.
  The heading 360 is outside that interval and is returned unchanged.
\<close>

theorem NewWaypoint_heading_360_kept:
  "NewWaypoint 7 10 20 0 360 5 =
     Inr \<lparr>ID = 7, Latitude = 10, Longitude = 20, Speed = 0, Heading = 360, RecordedAt = 5\<rparr>"
  by (simp add: NewWaypoint_def)

section \<open>State transitions of the aggregate\<close>

text \<open>
  Claim C5.  On a track whose status is not active, \<open>Complete\<close> and \<open>Cancel\<close> return the
  invalid-state error built from the current status and the target status, and the track
  after the call is the track before it.
\<close>

theorem transition_rejected_when_not_active:
  "status t \<noteq> TrackingActive \<Longrightarrow>
     Complete now km t = (Some (InvalidStateError (status t) TrackingCompleted), t) \<and>
     Cancel now t = (Some (InvalidStateError (status t) TrackingCancelled), t)"
  by (simp add: Complete_def Cancel_def)

theorem transition_rejected_when_not_active_witness:
  "Complete 50 2 (NewTripTrack 10 1 2 3\<lparr>status := TrackingCompleted\<rparr>) =
     (Some (InvalidStateError ''completed'' ''completed''),
      NewTripTrack 10 1 2 3\<lparr>status := TrackingCompleted\<rparr>) \<and>
   Cancel 50 (NewTripTrack 10 1 2 3\<lparr>status := TrackingCompleted\<rparr>) =
     (Some (InvalidStateError ''completed'' ''cancelled''),
      NewTripTrack 10 1 2 3\<lparr>status := TrackingCompleted\<rparr>)"
  using transition_rejected_when_not_active
          [of "NewTripTrack 10 1 2 3\<lparr>status := TrackingCompleted\<rparr>" 50 2]
  by (simp add: TrackingActive_def TrackingCompleted_def TrackingCancelled_def)

text \<open>
  What \<open>Complete\<close> does on an active track: it succeeds, the status is completed, the
  distance and the completion time are stored.  The version is not among the fields it
  assigns.
\<close>

lemma Complete_active:
  "status t = TrackingActive \<Longrightarrow>
     Complete now km t =
       (None, t\<lparr>status := TrackingCompleted, totalDistanceKm := km,
                 completedAt := Some now, updatedAt := now\<rparr>)"
  by (simp add: Complete_def)

lemma Complete_version: "version (snd (Complete now km t)) = version t"
  by (simp add: Complete_def)

text \<open>
  Claim C1 at a concrete input.  A freshly created track is active and has version 1.
  \<open>Complete\<close> succeeds on it and stores status, distance and completion time, and the
  version after the call is still 1, where the claim has 2.
\<close>

theorem Complete_leaves_version_at_1:
  "Complete 50 (3 / 2) (NewTripTrack 10 1 2 3) =
     (None, \<lparr>trackId = 1, bookingID = 2, runnerID = 3, status = ''completed'',
             totalDistanceKm = 3 / 2, startedAt = 10, completedAt = Some 50, version = 1,
             createdAt = 10, updatedAt = 50\<rparr>)"
  by (simp add: Complete_def NewTripTrack_def TrackingActive_def TrackingCompleted_def)

section \<open>Conversion between the aggregate and its persistence model\<close>


section \<open>The store\<close>

lemma find_Some_holds: "find P xs = Some x \<Longrightarrow> P x \<and> x \<in> set xs"
  by (induction xs) (auto split: if_splits)

lemma First_None_iff: "First cond store = None \<longleftrightarrow> (\<forall>m \<in> set (trip_tracks store). \<not> cond m)"
  by (simp add: First_def find_None_iff Ball_def)

lemma First_Some_cond: "First cond store = Some m \<Longrightarrow> cond m \<and> m \<in> set (trip_tracks store)"
  unfolding First_def using find_Some_holds [of cond "sort_key mID (trip_tracks store)" m] by simp

text \<open>
  In the store of the model, which keeps a row as it was written, a track that has been
  saved is found again under its id as it was.
\<close>

lemma Save_then_FindByID:
  fixes track :: TripTrack
  assumes "Save store track = Inr store1"
  shows "FindByID store1 (trackId track) = Inr track"
proof -
  from assms have fresh: "\<forall>r \<in> set (trip_tracks store). mID r \<noteq> trackId track"
    and s1: "store1 = store\<lparr>trip_tracks := trip_tracks store @ [toModel track]\<rparr>"
    by (auto simp add: Save_def Let_def toModel_def split: if_splits)
  have "First (\<lambda>m. mID m = trackId track) store1 \<noteq> None"
    by (simp add: First_None_iff s1 toModel_def)
  then obtain m where m: "First (\<lambda>m. mID m = trackId track) store1 = Some m" by blast
  from First_Some_cond [OF m] have "mID m = trackId track" "m \<in> set (trip_tracks store1)"
    by simp_all
  with fresh have "m = toModel track" by (auto simp add: s1)
  with m show ?thesis
    by (cases track) (simp add: FindByID_def toDomain_def toModel_def Reconstruct_def)
qed

text \<open>
  \<open>Update\<close> and the version.  A track that carries the version it was loaded with matches
  no row.  A track whose version is one more than the stored one matches its row, which
  then gets the columns of the track.
\<close>

lemma Update_stale:
  assumes "distinct (map mID (trip_tracks store))"
    and "m \<in> set (trip_tracks store)"
    and "trackId track = mID m" and "version track = mVersion m"
  shows "Update store track = Inl ErrOptimisticLock"
proof -
  have "\<not> (mID r = trackId track \<and> mVersion r = version track - 1)"
    if "r \<in> set (trip_tracks store)" for r
  proof
    assume h: "mID r = trackId track \<and> mVersion r = version track - 1"
    with assms that have "r = m"
      by (metis distinct_map inj_onD)
    with h assms show False by simp
  qed
  then have "filter (\<lambda>r. mID r = trackId track \<and> mVersion r = version track - 1) (trip_tracks store) = []"
    by (simp add: filter_empty_conv)
  then show ?thesis
    by (simp add: Update_def toModel_def Let_def)
qed

lemma Update_with_bumped_version:
  assumes ids: "distinct (map mID (trip_tracks store))"
    and bookings: "distinct (map mBookingID (trip_tracks store))"
    and m: "m \<in> set (trip_tracks store)"
    and t: "trackId track = mID m" "bookingID track = mBookingID m" "version track = mVersion m + 1"
  shows "Update store track =
           Inr (store\<lparr>trip_tracks := map (\<lambda>r. if r = m then toModel track else r) (trip_tracks store)\<rparr>)"
proof -
  let ?hit = "\<lambda>r. mID r = mID (toModel track) \<and> mVersion r = mVersion (toModel track) - 1"
  have hit: "?hit r \<longleftrightarrow> r = m" if "r \<in> set (trip_tracks store)" for r
  proof
    assume "?hit r"
    then have "mID r = mID m" using t by (simp add: toModel_def)
    with ids that m show "r = m" by (metis distinct_map inj_onD)
  next
    assume "r = m"
    then show "?hit r" using t by (simp add: toModel_def)
  qed
  have f: "filter ?hit (trip_tracks store) = filter (\<lambda>r. r = m) (trip_tracks store)"
    using hit by (intro filter_cong refl) simp
  have n: "length (filter ?hit (trip_tracks store)) \<noteq> 0"
    unfolding f using m by (simp add: filter_empty_conv)
  have noclash: "\<not> (\<exists>r \<in> set (trip_tracks store). \<not> ?hit r \<and> mBookingID r = mBookingID (toModel track))"
  proof
    assume "\<exists>r \<in> set (trip_tracks store). \<not> ?hit r \<and> mBookingID r = mBookingID (toModel track)"
    then obtain r where r: "r \<in> set (trip_tracks store)" "\<not> ?hit r" "mBookingID r = mBookingID m"
      using t by (auto simp add: toModel_def)
    with bookings m have "r = m" by (metis distinct_map inj_onD)
    with r hit show False by simp
  qed
  have mp: "map (\<lambda>r. if ?hit r then toModel track else r) (trip_tracks store) =
            map (\<lambda>r. if r = m then toModel track else r) (trip_tracks store)"
    using hit by (intro map_cong refl) simp
  show ?thesis
    using n noclash unfolding Update_def Let_def mp [symmetric] by (simp only: if_False if_True simp_thms)
qed

text \<open>
  So a completion that is followed by \<open>IncrementVersion\<close> is written: this is the call
  that \<open>Update\<close> counts on and that \<open>HandleDeliveryConfirmed\<close> does not make.
\<close>

lemma Update_after_IncrementVersion:
  assumes "distinct (map mID (trip_tracks store))"
    and "distinct (map mBookingID (trip_tracks store))"
    and "m \<in> set (trip_tracks store)"
    and "Complete now km (toDomain m) = (None, track1)"
  shows "Update store (IncrementVersion now2 track1) =
           Inr (store\<lparr>trip_tracks :=
                  map (\<lambda>r. if r = m then toModel (IncrementVersion now2 track1) else r)
                    (trip_tracks store)\<rparr>)"
proof -
  from assms(4) have t: "track1 = (toDomain m)\<lparr>status := TrackingCompleted,
      totalDistanceKm := km, completedAt := Some now, updatedAt := now\<rparr>"
    by (simp add: Complete_def split: if_splits)
  have "trackId (IncrementVersion now2 track1) = mID m"
    "bookingID (IncrementVersion now2 track1) = mBookingID m"
    "version (IncrementVersion now2 track1) = mVersion m + 1"
    by (simp_all add: t IncrementVersion_def toDomain_def Reconstruct_def)
  with assms(1-3) show ?thesis by (rule Update_with_bumped_version)
qed

section \<open>Total distance\<close>
















section \<open>Event handlers\<close>

text \<open>
  Claim C7.  When no stored track has the runner id of the event together with the status
  active, the handler returns nil and the world after the call is the world before it: no
  waypoint row is added, nothing is put on the hub's broadcast channel, and no event is
  handed to the producer.
\<close>

theorem no_active_track_ignored:
  "\<forall>m \<in> set (trip_tracks (repo w)). \<not> (mRunnerID m = luRunnerID event \<and> mStatus m = TrackingActive)
   \<Longrightarrow> HandleRunnerLocationUpdate now occurredAt newId w event = (None, w)"
proof -
  assume a: "\<forall>m \<in> set (trip_tracks (repo w)). \<not> (mRunnerID m = luRunnerID event \<and> mStatus m = TrackingActive)"
  then have "First (\<lambda>m. mRunnerID m = luRunnerID event \<and> mStatus m = TrackingActive) (repo w) = None"
    by (simp add: First_None_iff)
  then have "FindActiveByRunnerID (repo w) (luRunnerID event) = Inl ErrNotFound"
    by (simp add: FindActiveByRunnerID_def)
  then show ?thesis by (simp add: HandleRunnerLocationUpdate_def)
qed

theorem no_active_track_ignored_witness:
  "HandleRunnerLocationUpdate 20 21 9 sampleWorld
     \<lparr>luRunnerID = 4, luLatitude = 1, luLongitude = 1, luSpeed = 0, luHeading = 0,
      luTimestamp = 19\<rparr> =
   (None, sampleWorld)"
  using no_active_track_ignored
          [of sampleWorld
              "\<lparr>luRunnerID = 4, luLatitude = 1, luLongitude = 1, luSpeed = 0, luHeading = 0,
                luTimestamp = 19\<rparr>" 20 21 9]
  by (simp add: sampleWorld_def toModel_def NewTripTrack_def)

lemma FindByBookingID_none:
  "\<forall>m \<in> set (trip_tracks store). mBookingID m \<noteq> b \<Longrightarrow> FindByBookingID store b = Inl ErrNotFound"
proof -
  assume "\<forall>m \<in> set (trip_tracks store). mBookingID m \<noteq> b"
  then have "First (\<lambda>m. mBookingID m = b) store = None"
    by (simp add: First_None_iff)
  then show ?thesis by (simp add: FindByBookingID_def)
qed

lemma FindByBookingID_some:
  "FindByBookingID store b = Inr track \<Longrightarrow>
     \<exists>m \<in> set (trip_tracks store). mBookingID m = b \<and> track = toDomain m"
  unfolding FindByBookingID_def
  by (auto split: option.splits dest: First_Some_cond)

lemma FindByBookingID_exists:
  "\<exists>m \<in> set (trip_tracks store). mBookingID m = b \<Longrightarrow> \<exists>track. FindByBookingID store b = Inr track"
proof -
  assume "\<exists>m \<in> set (trip_tracks store). mBookingID m = b"
  then have "First (\<lambda>m. mBookingID m = b) store \<noteq> None"
    by (simp add: First_None_iff)
  then show ?thesis by (auto simp add: FindByBookingID_def)
qed

text \<open>
  The three cases of \<open>HandleDeliveryConfirmed\<close>.  No track for the booking: an error.  A
  track that is not active: nil, and nothing changes.  An active track: \<open>Complete\<close>
  leaves the version as it was loaded, \<open>Update\<close> looks for a stored row with that version
  minus one, the primary key admits no other row with the id, so no row is written and the
  handler returns the optimistic-lock error before it publishes.
\<close>

lemma HandleDeliveryConfirmed_not_found:
  "\<forall>m \<in> set (trip_tracks (repo w)). mBookingID m \<noteq> dcBookingID event \<Longrightarrow>
     HandleDeliveryConfirmed now occurredAt w event =
       (Some (Wrapped ''tracking not found for booking'' ErrNotFound), w)"
  by (simp add: HandleDeliveryConfirmed_def FindByBookingID_none)

lemma HandleDeliveryConfirmed_not_active:
  "FindByBookingID (repo w) (dcBookingID event) = Inr track \<Longrightarrow> status track \<noteq> TrackingActive \<Longrightarrow>
     HandleDeliveryConfirmed now occurredAt w event = (None, w)"
  by (simp add: HandleDeliveryConfirmed_def IsActive_def)

lemma HandleDeliveryConfirmed_active:
  assumes "distinct (map mID (trip_tracks (repo w)))"
    and "FindByBookingID (repo w) (dcBookingID event) = Inr track"
    and "status track = TrackingActive"
  shows "HandleDeliveryConfirmed now occurredAt w event =
           (Some (Wrapped ''failed to update tracking'' ErrOptimisticLock), w)"
proof -
  from assms(2) obtain m where m: "m \<in> set (trip_tracks (repo w))" "track = toDomain m"
    using FindByBookingID_some by blast
  define km where "km = calculateTotalDistance (GetWaypoints (repo w) (trackId track))"
  define track1 where "track1 = track\<lparr>status := TrackingCompleted, totalDistanceKm := km,
                      completedAt := Some now, updatedAt := now\<rparr>"
  have c: "Complete now km track = (None, track1)"
    using assms(3) by (simp add: Complete_def track1_def)
  have "trackId track1 = mID m" "version track1 = mVersion m"
    using m(2) by (simp_all add: track1_def toDomain_def Reconstruct_def)
  with assms(1) m(1) have u: "Update (repo w) track1 = Inl ErrOptimisticLock"
    by (rule Update_stale)
  show ?thesis
    using assms(2,3) c u
    by (simp add: HandleDeliveryConfirmed_def IsActive_def Let_def km_def)
qed


text \<open>
  Claim C6.  If a stored track has the booking id of the event, the handler returns nil
  and changes nothing.  If none has, and the generated id is not the id of a stored track,
  the handler returns nil, the store has gained exactly one row (status active, distance
  0, version 1) and one tracking-started event has been handed to the producer.
\<close>

theorem HandleBookingAccepted_idempotent:
  "((\<exists>m \<in> set (trip_tracks (repo w)). mBookingID m = baBookingID event) \<longrightarrow>
      HandleBookingAccepted now occurredAt newId w event = (None, w)) \<and>
   ((\<forall>m \<in> set (trip_tracks (repo w)). mBookingID m \<noteq> baBookingID event \<and> mID m \<noteq> newId) \<longrightarrow>
      HandleBookingAccepted now occurredAt newId w event =
        (None,
         w\<lparr>repo := (repo w)\<lparr>trip_tracks := trip_tracks (repo w) @
              [\<lparr>mID = newId, mBookingID = baBookingID event, mRunnerID = baRunnerID event,
                mStatus = TrackingActive, mTotalDistanceKm = 0, mStartedAt = now,
                mCompletedAt = None, mVersion = 1, mCreatedAt = now, mUpdatedAt = now\<rparr>]\<rparr>,
           published := published w @
              [TrackingStartedEvent newId (baBookingID event) (baRunnerID event) now occurredAt]\<rparr>))"
proof (intro conjI impI)
  assume "\<exists>m \<in> set (trip_tracks (repo w)). mBookingID m = baBookingID event"
  then obtain track where "FindByBookingID (repo w) (baBookingID event) = Inr track"
    using FindByBookingID_exists by blast
  then show "HandleBookingAccepted now occurredAt newId w event = (None, w)"
    by (simp add: HandleBookingAccepted_def)
next
  assume a: "\<forall>m \<in> set (trip_tracks (repo w)). mBookingID m \<noteq> baBookingID event \<and> mID m \<noteq> newId"
  then have f: "FindByBookingID (repo w) (baBookingID event) = Inl ErrNotFound"
    by (simp add: FindByBookingID_none)
  have s: "Save (repo w) (NewTripTrack now newId (baBookingID event) (baRunnerID event)) =
        Inr ((repo w)\<lparr>trip_tracks := trip_tracks (repo w) @
              [toModel (NewTripTrack now newId (baBookingID event) (baRunnerID event))]\<rparr>)"
    using a by (auto simp add: Save_def Let_def toModel_def NewTripTrack_def)
  show "HandleBookingAccepted now occurredAt newId w event =
        (None,
         w\<lparr>repo := (repo w)\<lparr>trip_tracks := trip_tracks (repo w) @
              [\<lparr>mID = newId, mBookingID = baBookingID event, mRunnerID = baRunnerID event,
                mStatus = TrackingActive, mTotalDistanceKm = 0, mStartedAt = now,
                mCompletedAt = None, mVersion = 1, mCreatedAt = now, mUpdatedAt = now\<rparr>]\<rparr>,
           published := published w @
              [TrackingStartedEvent newId (baBookingID event) (baRunnerID event) now occurredAt]\<rparr>)"
    using f s by (simp add: HandleBookingAccepted_def Let_def toModel_def NewTripTrack_def)
qed


theorem HandleBookingAccepted_idempotent_witness:
  "HandleBookingAccepted 50 51 7 sampleWorld \<lparr>baBookingID = 2, baRunnerID = 3\<rparr> =
     (None, sampleWorld) \<and>
   HandleBookingAccepted 50 51 7 sampleWorld \<lparr>baBookingID = 5, baRunnerID = 4\<rparr> =
     (None,
      \<lparr>repo = \<lparr>trip_tracks =
                [toModel (NewTripTrack 10 1 2 3),
                 \<lparr>mID = 7, mBookingID = 5, mRunnerID = 4, mStatus = ''active'',
                  mTotalDistanceKm = 0, mStartedAt = 50, mCompletedAt = None, mVersion = 1,
                  mCreatedAt = 50, mUpdatedAt = 50\<rparr>],
              waypoints_tbl = []\<rparr>,
       hubBroadcast = [], published = [TrackingStartedEvent 7 5 4 50 51]\<rparr>)"
  using HandleBookingAccepted_idempotent
          [of sampleWorld "\<lparr>baBookingID = 2, baRunnerID = 3\<rparr>" 50 51 7]
        HandleBookingAccepted_idempotent
          [of sampleWorld "\<lparr>baBookingID = 5, baRunnerID = 4\<rparr>" 50 51 7]
  by (simp add: sampleWorld_def toModel_def NewTripTrack_def TrackingActive_def)

text \<open>
  Hence a second booking-accepted event for the same booking changes nothing, whatever
  identifier and times the second call draws.
\<close>

lemma HandleBookingAccepted_twice:
  assumes "HandleBookingAccepted now occurredAt newId w event = (None, w1)"
  shows "HandleBookingAccepted now2 occurredAt2 newId2 w1 event = (None, w1)"
proof (cases "FindByBookingID (repo w) (baBookingID event)")
  case (Inr existing)
  with assms have "w1 = w" by (simp add: HandleBookingAccepted_def)
  with Inr show ?thesis by (simp add: HandleBookingAccepted_def)
next
  case (Inl e)
  with assms obtain store1 where
    s: "Save (repo w) (NewTripTrack now newId (baBookingID event) (baRunnerID event)) = Inr store1"
    and w1: "repo w1 = store1"
    by (auto simp add: HandleBookingAccepted_def Let_def split: sum.splits)
  from s have "\<exists>m \<in> set (trip_tracks store1). mBookingID m = baBookingID event"
    by (auto simp add: Save_def Let_def toModel_def NewTripTrack_def split: if_splits)
  then obtain track where "FindByBookingID (repo w1) (baBookingID event) = Inr track"
    unfolding w1 using FindByBookingID_exists by blast
  then show ?thesis by (simp add: HandleBookingAccepted_def)
qed

section \<open>The hub\<close>

text \<open>
  The loop in closed form: each client still to visit has the message appended to its
  queue, or, if its queue is full, has its channel closed and leaves the room.
\<close>

lemma broadcastLoop_result:
  assumes "distinct todo" and "set todo \<subseteq> set clients"
    and "\<forall>c \<in> set todo. \<not> chClosed (Send h c)"
    and "rooms h b = roomOf clients"
  shows "broadcastLoop b data todo clients h =
           Inr \<lparr>rooms = (rooms h)(b := roomOf (filter (\<lambda>c. c \<notin> set todo \<or> \<not> isFull (Send h c)) clients)),
                Send = (\<lambda>c. if c \<in> set todo then deliverTo data (Send h c) else Send h c)\<rparr>"
  using assms
proof (induction todo arbitrary: clients h)
  case Nil
  then have "(rooms h)(b := roomOf clients) = rooms h"
    by (simp add: fun_upd_idem)
  then show ?case by simp
next
  case (Cons c todo)
  have c: "c \<notin> set todo" "distinct todo" "c \<in> set clients" "set todo \<subseteq> set clients"
    and "open": "\<not> chClosed (Send h c)"
    using Cons.prems by auto
  show ?case
  proof (cases "isFull (Send h c)")
    case False
    define h1 where "h1 = h\<lparr>Send := (Send h)(c := (Send h c)\<lparr>chQueue := chQueue (Send h c) @ [data]\<rparr>)\<rparr>"
    have step: "broadcastLoop b data (c # todo) clients h = broadcastLoop b data todo clients h1"
      using False "open" by (simp add: isFull_def h1_def Let_def)
    have same: "Send h1 x = Send h x" if "x \<noteq> c" for x
      using that by (simp add: h1_def)
    have st: "\<forall>x \<in> set todo. Send h1 x = Send h x"
      using c(1) by (auto simp add: h1_def)
    have sc: "\<forall>x. x \<noteq> c \<longrightarrow> Send h1 x = Send h x"
      by (simp add: h1_def)
    have o1: "\<forall>x \<in> set todo. \<not> chClosed (Send h1 x)"
    proof
      fix x assume x: "x \<in> set todo"
      with c(1) have "x \<noteq> c" by auto
      then have "Send h1 x = Send h x" by (rule same)
      with x Cons.prems(3) show "\<not> chClosed (Send h1 x)" by simp
    qed
    have r1: "rooms h1 b = roomOf clients"
      using Cons.prems(4) by (simp add: h1_def)
    have ih: "broadcastLoop b data todo clients h1 =
        Inr \<lparr>rooms = (rooms h1)(b := roomOf (filter (\<lambda>x. x \<notin> set todo \<or> \<not> isFull (Send h1 x)) clients)),
             Send = (\<lambda>x. if x \<in> set todo then deliverTo data (Send h1 x) else Send h1 x)\<rparr>"
      by (rule Cons.IH [OF c(2) c(4) o1 r1])
    have f: "filter (\<lambda>x. x \<notin> set todo \<or> \<not> isFull (Send h1 x)) clients =
             filter (\<lambda>x. x \<notin> set (c # todo) \<or> \<not> isFull (Send h x)) clients"
      using False c(1) st by (intro filter_cong refl) auto
    have s: "(\<lambda>x. if x \<in> set todo then deliverTo data (Send h1 x) else Send h1 x) =
             (\<lambda>x. if x \<in> set (c # todo) then deliverTo data (Send h x) else Send h x)"
      using False c(1) same by (auto simp add: fun_eq_iff deliverTo_def h1_def)
    show ?thesis
      unfolding step ih f s by (simp add: h1_def fun_eq_iff)
  next
    case True
    define clients1 where "clients1 = removeAll c clients"
    define h2 where "h2 = h\<lparr>Send := (Send h)(c := (Send h c)\<lparr>chClosed := True\<rparr>),
                           rooms := (rooms h)(b := roomOf clients1)\<rparr>"
    have step: "broadcastLoop b data (c # todo) clients h = broadcastLoop b data todo clients1 h2"
      using True "open" by (simp add: isFull_def h2_def clients1_def roomOf_def Let_def)
    have same: "Send h2 x = Send h x" if "x \<noteq> c" for x
      using that by (simp add: h2_def)
    have st: "\<forall>x \<in> set todo. Send h2 x = Send h x"
      using c(1) by (auto simp add: h2_def)
    have sc: "\<forall>x. x \<noteq> c \<longrightarrow> Send h2 x = Send h x"
      by (simp add: h2_def)
    have o2: "\<forall>x \<in> set todo. \<not> chClosed (Send h2 x)"
    proof
      fix x assume x: "x \<in> set todo"
      with c(1) have "x \<noteq> c" by auto
      then have "Send h2 x = Send h x" by (rule same)
      with x Cons.prems(3) show "\<not> chClosed (Send h2 x)" by simp
    qed
    have r2: "rooms h2 b = roomOf clients1"
      by (simp add: h2_def)
    have sub: "set todo \<subseteq> set clients1"
      using c by (auto simp add: clients1_def)
    have ih: "broadcastLoop b data todo clients1 h2 =
        Inr \<lparr>rooms = (rooms h2)(b := roomOf (filter (\<lambda>x. x \<notin> set todo \<or> \<not> isFull (Send h2 x)) clients1)),
             Send = (\<lambda>x. if x \<in> set todo then deliverTo data (Send h2 x) else Send h2 x)\<rparr>"
      by (rule Cons.IH [OF c(2) sub o2 r2])
    have f: "filter (\<lambda>x. x \<notin> set todo \<or> \<not> isFull (Send h2 x)) clients1 =
             filter (\<lambda>x. x \<notin> set (c # todo) \<or> \<not> isFull (Send h x)) clients"
    proof -
      have "filter (\<lambda>x. x \<notin> set todo \<or> \<not> isFull (Send h2 x)) clients1 =
            filter (\<lambda>x. x \<noteq> c \<and> (x \<notin> set (c # todo) \<or> \<not> isFull (Send h x))) clients"
        unfolding clients1_def removeAll_filter_not_eq filter_filter
        using sc by (intro filter_cong refl) auto
      also have "\<dots> = filter (\<lambda>x. x \<notin> set (c # todo) \<or> \<not> isFull (Send h x)) clients"
        using True by (intro filter_cong refl) auto
      finally show ?thesis .
    qed
    have s: "(\<lambda>x. if x \<in> set todo then deliverTo data (Send h2 x) else Send h2 x) =
             (\<lambda>x. if x \<in> set (c # todo) then deliverTo data (Send h x) else Send h x)"
      using True c(1) same by (auto simp add: fun_eq_iff deliverTo_def h2_def)
    show ?thesis
      unfolding step ih f s by (simp add: h2_def fun_eq_iff)
  qed
qed


lemma broadcastToRoom_result:
  assumes "rooms h b = Some clients" and "clients \<noteq> []" and "distinct clients"
    and "\<forall>c \<in> set clients. \<not> chClosed (Send h c)"
  shows "broadcastToRoom h b data =
           Inr \<lparr>rooms = (rooms h)(b := roomOf (filter (\<lambda>c. \<not> isFull (Send h c)) clients)),
                Send = (\<lambda>c. if c \<in> set clients then deliverTo data (Send h c) else Send h c)\<rparr>"
proof -
  have r: "rooms h b = roomOf clients"
    using assms(1,2) by (simp add: roomOf_def)
  have "broadcastLoop b data clients clients h =
          Inr \<lparr>rooms = (rooms h)(b := roomOf (filter (\<lambda>c. c \<notin> set clients \<or> \<not> isFull (Send h c)) clients)),
               Send = (\<lambda>c. if c \<in> set clients then deliverTo data (Send h c) else Send h c)\<rparr>"
    by (rule broadcastLoop_result [OF assms(3) subset_refl assms(4) r])
  moreover have "filter (\<lambda>c. c \<notin> set clients \<or> \<not> isFull (Send h c)) clients =
                 filter (\<lambda>c. \<not> isFull (Send h c)) clients"
    by (intro filter_cong refl) auto
  ultimately show ?thesis
    using assms(1) by (simp add: broadcastToRoom_def)
qed

text \<open>
  Claim C8.  Take a room whose members are distinct and have open channels.  Then
  \<open>broadcastToRoom\<close> returns, without a panic, and in the hub it returns: every member
  whose queue was full is out of the room and its channel is closed; every other member is
  still in the room and has the message at the end of its queue; the room is gone if every
  member was full; the other rooms and the channels of other clients are as before.  The
  message is offered to each member by a \<^verbatim>\<open>select\<close> with a \<^verbatim>\<open>default\<close> branch, which is the
  step of the loop and never waits.
\<close>

theorem broadcastToRoom_drops_full_serves_rest:
  assumes "rooms h b = Some clients" and "distinct clients"
    and "\<forall>c \<in> set clients. \<not> chClosed (Send h c)"
  shows "\<exists>h'. broadcastToRoom h b data = Inr h' \<and>
           (\<forall>c \<in> set clients. isFull (Send h c) \<longrightarrow>
              c \<notin> members h' b \<and> Send h' c = (Send h c)\<lparr>chClosed := True\<rparr>) \<and>
           (\<forall>c \<in> set clients. \<not> isFull (Send h c) \<longrightarrow>
              c \<in> members h' b \<and> Send h' c = (Send h c)\<lparr>chQueue := chQueue (Send h c) @ [data]\<rparr>) \<and>
           (clients \<noteq> [] \<and> (\<forall>c \<in> set clients. isFull (Send h c)) \<longrightarrow> rooms h' b = None) \<and>
           (\<forall>b'. b' \<noteq> b \<longrightarrow> rooms h' b' = rooms h b') \<and>
           (\<forall>c. c \<notin> set clients \<longrightarrow> Send h' c = Send h c)"
proof (cases "clients = []")
  case True
  with assms(1) have "broadcastToRoom h b data = Inr h"
    by (simp add: broadcastToRoom_def)
  with True show ?thesis by simp
next
  case False
  define keep where "keep = filter (\<lambda>c. \<not> isFull (Send h c)) clients"
  define h' where "h' = \<lparr>rooms = (rooms h)(b := roomOf keep),
                          Send = (\<lambda>c. if c \<in> set clients then deliverTo data (Send h c) else Send h c)\<rparr>"
  have res: "broadcastToRoom h b data = Inr h'"
    unfolding h'_def keep_def by (rule broadcastToRoom_result [OF assms(1) False assms(2,3)])
  have m: "members h' b = set keep"
    by (simp add: members_def h'_def roomOf_def)
  have full: "c \<notin> members h' b \<and> Send h' c = (Send h c)\<lparr>chClosed := True\<rparr>"
    if "c \<in> set clients" "isFull (Send h c)" for c
  proof
    show "c \<notin> members h' b" using that unfolding m by (simp add: keep_def)
    show "Send h' c = (Send h c)\<lparr>chClosed := True\<rparr>"
      using that by (simp add: h'_def deliverTo_def)
  qed
  have notfull: "c \<in> members h' b \<and> Send h' c = (Send h c)\<lparr>chQueue := chQueue (Send h c) @ [data]\<rparr>"
    if "c \<in> set clients" "\<not> isFull (Send h c)" for c
  proof
    show "c \<in> members h' b" using that unfolding m by (simp add: keep_def)
    show "Send h' c = (Send h c)\<lparr>chQueue := chQueue (Send h c) @ [data]\<rparr>"
      using that by (simp add: h'_def deliverTo_def)
  qed
  have empty: "rooms h' b = None" if "\<forall>c \<in> set clients. isFull (Send h c)"
  proof -
    from that have "keep = []" by (simp add: keep_def filter_empty_conv)
    then show ?thesis by (simp add: h'_def roomOf_def)
  qed
  have others: "rooms h' b' = rooms h b'" if "b' \<noteq> b" for b'
    using that by (simp add: h'_def)
  have frame: "Send h' c = Send h c" if "c \<notin> set clients" for c
    using that by (simp add: h'_def)
  show ?thesis
    using res full notfull empty others frame by blast
qed

theorem broadcastToRoom_drops_full_serves_rest_witness:
  "\<exists>h'. broadcastToRoom sampleHub 9 ''new'' = Inr h' \<and>
         1 \<notin> members h' 9 \<and>
         Send h' 1 = \<lparr>chQueue = [''old''], chCap = 1, chClosed = True\<rparr> \<and>
         2 \<in> members h' 9 \<and>
         Send h' 2 = \<lparr>chQueue = [''new''], chCap = 2, chClosed = False\<rparr>"
  using broadcastToRoom_drops_full_serves_rest [of sampleHub 9 "[1, 2]" "''new''"]
  by (simp add: sampleHub_def isFull_def) blast

text \<open>
  The hypothesis of the theorem holds in every state the loop of \<^verbatim>\<open>Run\<close> reaches, as long
  as the clients that are registered come with an open channel: the invariant holds for
  the new hub, and registration, unregistration and a broadcast keep it.
\<close>

lemma hub_inv_NewHub: "hub_inv BookingID (NewHub channels)"
  by (simp add: hub_inv_def NewHub_def)

lemma hub_invD:
  "hub_inv BookingID h \<Longrightarrow> rooms h b = Some cs \<Longrightarrow>
     cs \<noteq> [] \<and> distinct cs \<and> (\<forall>c \<in> set cs. BookingID c = b \<and> \<not> chClosed (Send h c))"
  unfolding hub_inv_def by (elim allE impE) assumption

lemma hub_inv_register:
  assumes "hub_inv BookingID h" and "\<not> chClosed (Send h client)"
  shows "hub_inv BookingID (hubRegister BookingID h client)"
proof -
  define b where "b = BookingID client"
  define clients where "clients = (case rooms h b of None \<Rightarrow> [] | Some cs \<Rightarrow> cs)"
  define clients1 where "clients1 = (if client \<in> set clients then clients else clients @ [client])"
  have old: "distinct clients \<and> (\<forall>c \<in> set clients. BookingID c = b \<and> \<not> chClosed (Send h c))"
  proof (cases "rooms h b")
    case None
    then show ?thesis by (simp add: clients_def)
  next
    case (Some cs)
    then have "clients = cs" by (simp add: clients_def)
    with hub_invD [OF assms(1) Some] show ?thesis by simp
  qed
  have new: "clients1 \<noteq> [] \<and> distinct clients1 \<and>
             (\<forall>c \<in> set clients1. BookingID c = b \<and> \<not> chClosed (Send h c))"
  proof (cases "client \<in> set clients")
    case True
    then have "clients1 = clients" "clients \<noteq> []" by (auto simp add: clients1_def)
    with old show ?thesis by simp
  next
    case False
    then have "clients1 = clients @ [client]" by (simp add: clients1_def)
    with old False assms(2) show ?thesis by (simp add: b_def)
  qed
  have r: "hubRegister BookingID h client = h\<lparr>rooms := (rooms h)(b := Some clients1)\<rparr>"
    by (simp only: hubRegister_def Let_def clients_def clients1_def b_def)
  show ?thesis
    unfolding r hub_inv_def
  proof (intro allI impI)
    fix b' cs
    assume cs: "rooms (h\<lparr>rooms := (rooms h)(b := Some clients1)\<rparr>) b' = Some cs"
    show "cs \<noteq> [] \<and> distinct cs \<and>
          (\<forall>c \<in> set cs. BookingID c = b' \<and>
             \<not> chClosed (Send (h\<lparr>rooms := (rooms h)(b := Some clients1)\<rparr>) c))"
    proof (cases "b' = b")
      case True
      with cs have "cs = clients1" by simp
      then show ?thesis using new True by simp
    next
      case False
      with cs have "rooms h b' = Some cs" by simp
      from hub_invD [OF assms(1) this] show ?thesis by simp
    qed
  qed
qed


lemma hub_inv_unregister:
  assumes "hub_inv BookingID h"
  shows "\<exists>h'. hubUnregister BookingID h client = Inr h' \<and> hub_inv BookingID h'"
proof (cases "rooms h (BookingID client)")
  case None
  then show ?thesis using assms by (simp add: hubUnregister_def)
next
  case (Some clients)
  note inv = hub_invD [OF assms Some]
  show ?thesis
  proof (cases "client \<in> set clients")
    case False
    then show ?thesis using assms Some by (simp add: hubUnregister_def)
  next
    case True
    with inv have o: "\<not> chClosed (Send h client)" by simp
    define b where "b = BookingID client"
    define h' where "h' = h\<lparr>Send := (Send h)(client := (Send h client)\<lparr>chClosed := True\<rparr>),
                            rooms := (rooms h)(b := roomOf (removeAll client clients))\<rparr>"
    have r: "hubUnregister BookingID h client = Inr h'"
      using Some True o by (simp add: hubUnregister_def h'_def b_def roomOf_def Let_def)
    have "hub_inv BookingID h'"
      unfolding hub_inv_def
    proof (intro allI impI)
      fix b' cs assume cs: "rooms h' b' = Some cs"
      show "cs \<noteq> [] \<and> distinct cs \<and> (\<forall>c \<in> set cs. BookingID c = b' \<and> \<not> chClosed (Send h' c))"
      proof (cases "b' = b")
        case True
        with cs have e: "cs = removeAll client clients" "cs \<noteq> []"
          by (simp_all add: h'_def roomOf_def split: if_splits)
        have "distinct cs" using inv e(1) by (simp add: distinct_removeAll)
        moreover have "\<forall>c \<in> set cs. BookingID c = b' \<and> \<not> chClosed (Send h' c)"
          using inv True by (simp add: e(1) h'_def b_def)
        ultimately show ?thesis using e(2) by simp
      next
        case False
        with cs have old: "rooms h b' = Some cs" by (simp add: h'_def)
        note j = hub_invD [OF assms old]
        have "\<forall>c \<in> set cs. c \<noteq> client"
        proof
          fix c assume "c \<in> set cs"
          with j have "BookingID c = b'" by simp
          with False show "c \<noteq> client" by (auto simp add: b_def)
        qed
        then have "\<forall>c \<in> set cs. Send h' c = Send h c" by (simp add: h'_def)
        then show ?thesis using j by simp
      qed
    qed
    with r show ?thesis by blast
  qed
qed

lemma hub_inv_broadcastToRoom:
  assumes "hub_inv BookingID h"
  shows "\<exists>h'. broadcastToRoom h b data = Inr h' \<and> hub_inv BookingID h'"
proof (cases "rooms h b")
  case None
  then show ?thesis using assms by (simp add: broadcastToRoom_def)
next
  case (Some clients)
  note inv = hub_invD [OF assms Some]
  from inv have i: "clients \<noteq> []" "distinct clients"
    and o: "\<forall>c \<in> set clients. \<not> chClosed (Send h c)"
    and m: "\<forall>c \<in> set clients. BookingID c = b"
    by simp_all
  define keep where "keep = filter (\<lambda>c. \<not> isFull (Send h c)) clients"
  define h' where "h' = \<lparr>rooms = (rooms h)(b := roomOf keep),
                          Send = (\<lambda>c. if c \<in> set clients then deliverTo data (Send h c) else Send h c)\<rparr>"
  have r: "broadcastToRoom h b data = Inr h'"
    unfolding h'_def keep_def by (rule broadcastToRoom_result [OF Some i o])
  have "hub_inv BookingID h'"
    unfolding hub_inv_def
  proof (intro allI impI)
    fix b' cs assume cs: "rooms h' b' = Some cs"
    show "cs \<noteq> [] \<and> distinct cs \<and> (\<forall>c \<in> set cs. BookingID c = b' \<and> \<not> chClosed (Send h' c))"
    proof (cases "b' = b")
      case True
      with cs have e: "cs = keep" "cs \<noteq> []"
        by (simp_all add: h'_def roomOf_def split: if_splits)
      have "\<forall>c \<in> set keep. \<not> chClosed (Send h' c)"
        using o by (simp add: keep_def h'_def deliverTo_def)
      moreover have "\<forall>c \<in> set keep. BookingID c = b"
        using m by (simp add: keep_def)
      moreover have "distinct keep" using i(2) by (simp add: keep_def)
      ultimately show ?thesis using e True by simp
    next
      case False
      with cs have old: "rooms h b' = Some cs" by (simp add: h'_def)
      note j = hub_invD [OF assms old]
      have "\<forall>c \<in> set cs. c \<notin> set clients"
      proof
        fix c assume "c \<in> set cs"
        with j have "BookingID c = b'" by simp
        with False m show "c \<notin> set clients" by auto
      qed
      then have "\<forall>c \<in> set cs. Send h' c = Send h c" by (simp add: h'_def)
      then show ?thesis using j by simp
    qed
  qed
  with r show ?thesis by blast
qed

section \<open>Route export\<close>







end
